theory Spec2Isabelle
  imports Complex_Main
begin

section \<open>Python values and exceptions\<close>

text \<open>
  The dashboard (\<^verbatim>\<open>currency_dashboard.py\<close>) fetches a rate table and a historical series
  over HTTP and turns them into rows. Exceptions are values: a call that may raise returns
  \<open>exn + 'a\<close>, with \<open>Inl\<close> for the exception. Every constructor of \<open>exn\<close> stands for a
  subclass of Python's \<^verbatim>\<open>Exception\<close>; \<open>HTTPError\<close> and \<open>RetryError\<close> are the two
  subclasses of \<^verbatim>\<open>requests.RequestException\<close> that occur.
\<close>

datatype exn =
    ValueError
  | AttributeError
  | OverflowError
  | HTTPError nat
  | RetryError
  | OtherException string

type_synonym 'a raising = "exn + 'a"

subsection \<open>Strings\<close>

text \<open>
  A Python \<^verbatim>\<open>str\<close> is modelled as a \<open>string\<close>, one \<open>char\<close> per code point below 256.
  On these, \<^verbatim>\<open>str.isspace\<close> holds of the code points listed in \<open>py_isspace\<close>, and
  \<^verbatim>\<open>s.strip()\<close> removes the leading and trailing run of them.
\<close>

definition py_isspace :: "char \<Rightarrow> bool" where
  "py_isspace c = ((of_char c :: nat) \<in> set [9, 10, 11, 12, 13, 28, 29, 30, 31, 32, 133, 160])"

definition strip :: "string \<Rightarrow> string" where
  "strip s = rev (dropWhile py_isspace (rev (dropWhile py_isspace s)))"

text \<open>\<^verbatim>\<open>s.replace(',', '')\<close>\<close>

definition replace_comma :: "string \<Rightarrow> string" where
  "replace_comma s = filter (\<lambda>c. c \<noteq> CHR '','') s"

text \<open>\<^verbatim>\<open>sep.join(xs)\<close>\<close>

fun join :: "string \<Rightarrow> string list \<Rightarrow> string" where
  "join sep [] = []"
| "join sep [x] = x"
| "join sep (x # y # ys) = x @ sep @ join sep (y # ys)"

subsection \<open>The builtin \<^verbatim>\<open>float\<close>\<close>

text \<open>
  \<^verbatim>\<open>float(s)\<close> is a parameter \<open>pf :: string \<Rightarrow> 'f option\<close> of the parser below, \<open>None\<close>
  standing for \<^verbatim>\<open>ValueError\<close>; the theorems hold for every such function. The examples
  instantiate it with \<open>decimal_float\<close>, the fragment of \<^verbatim>\<open>float\<close> on plain decimal literals
  (an optional sign, digits, an optional point and digits), whose value is the decimal number
  written, before its rounding to binary64. \<^verbatim>\<open>float\<close> accepts more strings (exponents,
  \<^verbatim>\<open>inf\<close>, \<^verbatim>\<open>nan\<close>, underscores); none of them occurs in the examples.
\<close>

definition is_digit :: "char \<Rightarrow> bool" where
  "is_digit c = (48 \<le> (of_char c :: nat) \<and> (of_char c :: nat) \<le> 57)"

definition digit_val :: "char \<Rightarrow> nat" where
  "digit_val c = of_char c - 48"

definition digits_val :: "string \<Rightarrow> nat" where
  "digits_val s = foldl (\<lambda>acc c. 10 * acc + digit_val c) 0 s"

definition unsigned_decimal :: "string \<Rightarrow> rat option" where
  "unsigned_decimal s =
     (let ip = takeWhile (\<lambda>c. c \<noteq> CHR ''.'') s;
          fp = drop 1 (dropWhile (\<lambda>c. c \<noteq> CHR ''.'') s)
      in if list_all is_digit ip \<and> list_all is_digit fp \<and> ip @ fp \<noteq> []
         then Some (of_nat (digits_val (ip @ fp)) / 10 ^ length fp)
         else None)"

definition decimal_float :: "string \<Rightarrow> rat option" where
  "decimal_float s =
     (case s of
        [] \<Rightarrow> None
      | c # cs \<Rightarrow>
          if c = CHR ''-'' then map_option uminus (unsigned_decimal cs)
          else if c = CHR ''+'' then unsigned_decimal cs
          else unsigned_decimal s)"

section \<open>Live table parser\<close>

text \<open>
  The parsed document is seen through the four calls the parser makes on it, each of which
  returns or raises:
  \<^item> \<^verbatim>\<open>soup.find("table", class_="tablesorter ratesTable")\<close>: the table, or \<^verbatim>\<open>None\<close>;
  \<^item> \<^verbatim>\<open>table.find_all("tr")\<close>: the rows;
  \<^item> \<^verbatim>\<open>row.find_all("td")\<close>: the cells of a row;
  \<^item> \<^verbatim>\<open>cell.text\<close>: the text of a cell.
\<close>

type_synonym td = "string raising"
type_synonym tr = "td list raising"
type_synonym table = "tr list raising"
type_synonym soup = "table option raising"

record 'f rate_row =
  Currency :: string
  Rate :: 'f

text \<open>The three messages the parser logs: two warnings and one error.\<close>

datatype log_record =
    Table_not_found
  | Could_not_parse_rate string
  | Error_parsing_exchange_table exn

text \<open>
  \<^verbatim>\<open>float(cols[1].text.strip().replace(',', ''))\<close>, the expression of the inner
  \<^verbatim>\<open>try\<close>.
\<close>

definition rate_of_cell :: "(string \<Rightarrow> 'f option) \<Rightarrow> td \<Rightarrow> 'f raising" where
  "rate_of_cell pf c =
     (case c of
        Inl e \<Rightarrow> Inl e
      | Inr t \<Rightarrow> (case pf (replace_comma (strip t)) of None \<Rightarrow> Inl ValueError | Some r \<Rightarrow> Inr r))"

text \<open>
  The loop over the rows. \<open>data\<close> is the list being appended to, \<open>lg\<close> the log. An exception
  other than the \<^verbatim>\<open>ValueError\<close> of the inner \<^verbatim>\<open>try\<close> leaves the loop.
\<close>

fun parse_rows ::
  "(string \<Rightarrow> 'f option) \<Rightarrow> tr list \<Rightarrow> 'f rate_row list \<Rightarrow> log_record list
     \<Rightarrow> 'f rate_row list raising \<times> log_record list" where
  "parse_rows pf [] data lg = (Inr data, lg)"
| "parse_rows pf (row # rows) data lg =
     (case row of
        Inl e \<Rightarrow> (Inl e, lg)
      | Inr cols \<Rightarrow>
          if 2 \<le> length cols then
            (case cols ! 0 of
               Inl e \<Rightarrow> (Inl e, lg)
             | Inr t0 \<Rightarrow>
                 (case rate_of_cell pf (cols ! 1) of
                    Inr rate \<Rightarrow>
                      parse_rows pf rows (data @ [\<lparr>Currency = strip t0, Rate = rate\<rparr>]) lg
                  | Inl e \<Rightarrow>
                      if e = ValueError
                      then parse_rows pf rows data (lg @ [Could_not_parse_rate (strip t0)])
                      else (Inl e, lg)))
          else parse_rows pf rows data lg)"

text \<open>The body of the outer \<^verbatim>\<open>try\<close>; \<open>drop 1\<close> is the slice \<^verbatim>\<open>[1:]\<close>.\<close>

definition parse_body ::
  "(string \<Rightarrow> 'f option) \<Rightarrow> soup \<Rightarrow> 'f rate_row list raising \<times> log_record list" where
  "parse_body pf soup =
     (case soup of
        Inl e \<Rightarrow> (Inl e, [])
      | Inr None \<Rightarrow> (Inr [], [Table_not_found])
      | Inr (Some table) \<Rightarrow>
          (case table of
             Inl e \<Rightarrow> (Inl e, [])
           | Inr trs \<Rightarrow> parse_rows pf (drop 1 trs) [] []))"

text \<open>
  The whole function: what the caller gets (\<open>Inl\<close> would be an exception reaching it, \<open>Inr\<close>
  the rows of the returned frame) and what was logged.
\<close>

definition parse_exchange_table ::
  "(string \<Rightarrow> 'f option) \<Rightarrow> soup \<Rightarrow> 'f rate_row list raising \<times> log_record list" where
  "parse_exchange_table pf soup =
     (case parse_body pf soup of
        (Inr df, lg) \<Rightarrow> (Inr df, lg)
      | (Inl e, lg) \<Rightarrow> (Inr [], lg @ [Error_parsing_exchange_table e]))"

text \<open>A document whose calls never raise: the table, if any, given by the texts of its cells.\<close>

definition html_rows :: "string list list \<Rightarrow> tr list" where
  "html_rows rows = map (\<lambda>cells. Inr (map Inr cells)) rows"

definition html_doc :: "string list list option \<Rightarrow> soup" where
  "html_doc t = Inr (map_option (\<lambda>rows. Inr (html_rows rows)) t)"

text \<open>
  A row is well formed when it has at least two cells and its second cell, trimmed and with
  the commas removed, parses as a float; \<open>row_record\<close> is the record it stands for.
\<close>

definition well_formed :: "(string \<Rightarrow> 'f option) \<Rightarrow> string list \<Rightarrow> bool" where
  "well_formed pf cells = (2 \<le> length cells \<and> pf (replace_comma (strip (cells ! 1))) \<noteq> None)"

definition row_record :: "(string \<Rightarrow> 'f option) \<Rightarrow> string list \<Rightarrow> 'f rate_row" where
  "row_record pf cells =
     \<lparr>Currency = strip (cells ! 0), Rate = the (pf (replace_comma (strip (cells ! 1))))\<rparr>"

text \<open>
  The warnings logged for the rows of a document whose calls never raise: one for each row
  with two cells or more whose rate does not parse.
\<close>

definition unparsed_warnings :: "(string \<Rightarrow> 'f option) \<Rightarrow> string list list \<Rightarrow> log_record list" where
  "unparsed_warnings pf rows =
     map (\<lambda>cells. Could_not_parse_rate (strip (cells ! 0)))
       (filter (\<lambda>cells. 2 \<le> length cells \<and> pf (replace_comma (strip (cells ! 1))) = None) rows)"

text \<open>
  \<open>from_cells pf rows r\<close>: the record \<open>r\<close> stands for one of \<open>rows\<close>, a row with two cells or
  more whose texts could be read.
\<close>

definition from_cells :: "(string \<Rightarrow> 'f option) \<Rightarrow> tr list \<Rightarrow> 'f rate_row \<Rightarrow> bool" where
  "from_cells pf rows r =
     (\<exists>cols t0 t1. Inr cols \<in> set rows \<and> 2 \<le> length cols \<and> cols ! 0 = Inr t0 \<and> cols ! 1 = Inr t1
        \<and> Currency r = strip t0 \<and> pf (replace_comma (strip t1)) = Some (Rate r))"

text \<open>
  The invariant the data model states for a live rate: a currency code of three upper-case
  letters and a rate above zero.
\<close>

definition is_upper :: "char \<Rightarrow> bool" where
  "is_upper c = (65 \<le> (of_char c :: nat) \<and> (of_char c :: nat) \<le> 90)"

definition valid_live_rate :: "rat rate_row \<Rightarrow> bool" where
  "valid_live_rate r = (length (Currency r) = 3 \<and> list_all is_upper (Currency r) \<and> 0 < Rate r)"

section \<open>Dates\<close>

text \<open>
  A date is its proleptic Gregorian ordinal, as \<^verbatim>\<open>datetime\<close> counts it: day 1 is 0001-01-01
  and the last day, 9999-12-31, is day 3652059. \<open>ord2ymd\<close> is the conversion of the library to
  year, month and day, with its two tables (index 0 is unused). Where the library lowers
  \<^verbatim>\<open>preceding\<close> by the length of the month before and then subtracts it from \<^verbatim>\<open>n\<close>, the
  length is added to \<open>n\<close> first, since subtraction on \<open>nat\<close> stops at zero.
\<close>

definition MAXORDINAL :: nat where
  "MAXORDINAL = 3652059"

definition DAYS_IN_MONTH :: "nat list" where
  "DAYS_IN_MONTH = [0, 31, 28, 31, 30, 31, 30, 31, 31, 30, 31, 30, 31]"

definition DAYS_BEFORE_MONTH :: "nat list" where
  "DAYS_BEFORE_MONTH = [0, 0, 31, 59, 90, 120, 151, 181, 212, 243, 273, 304, 334]"

definition ord2ymd :: "nat \<Rightarrow> nat \<times> nat \<times> nat" where
  "ord2ymd ordinal =
     (let n0 = ordinal - 1;
          n400 = n0 div 146097; r400 = n0 mod 146097;
          n100 = r400 div 36524; r100 = r400 mod 36524;
          n4 = r100 div 1461; r4 = r100 mod 1461;
          n1 = r4 div 365; n = r4 mod 365;
          year = n400 * 400 + 1 + n100 * 100 + n4 * 4 + n1
      in if n1 = 4 \<or> n100 = 4 then (year - 1, 12, 31)
         else
           let leapyear = (n1 = 3 \<and> (n4 \<noteq> 24 \<or> n100 = 3));
               month = (n + 50) div 32;
               preceding = DAYS_BEFORE_MONTH ! month + (if 2 < month \<and> leapyear then 1 else 0)
           in if n < preceding
              then (year, month - 1,
                    n + (DAYS_IN_MONTH ! (month - 1) + (if month - 1 = 2 \<and> leapyear then 1 else 0))
                      - preceding + 1)
              else (year, month, n - preceding + 1))"

text \<open>
  Decimal digits, and a number padded with zeros to a width, as \<^verbatim>\<open>%02d\<close> writes it.
\<close>

definition digit_char :: "nat \<Rightarrow> char" where
  "digit_char d = ''0123456789'' ! d"

fun decimal :: "nat \<Rightarrow> string" where
  "decimal n = (if n < 10 then [digit_char n] else decimal (n div 10) @ [digit_char (n mod 10)])"

declare decimal.simps [simp del]

definition zpad :: "nat \<Rightarrow> nat \<Rightarrow> string" where
  "zpad w n = replicate (w - length (decimal n)) (CHR ''0'') @ decimal n"

text \<open>
  \<^verbatim>\<open>d.strftime("%Y-%m-%d")\<close>. The year is written with four digits, which is what every
  platform does from the year 1000 on.
\<close>

definition strftime :: "nat \<Rightarrow> string" where
  "strftime ordinal =
     (case ord2ymd ordinal of (y, m, d) \<Rightarrow> zpad 4 y @ ''-'' @ zpad 2 m @ ''-'' @ zpad 2 d)"

text \<open>
  \<^verbatim>\<open>dt - timedelta(days=i)\<close> on the date of \<open>dt\<close>: the library raises \<^verbatim>\<open>OverflowError\<close>
  when the result leaves the range of dates.
\<close>

definition minus_days :: "nat \<Rightarrow> nat \<Rightarrow> nat raising" where
  "minus_days ordinal i =
     (if i < ordinal \<and> ordinal - i \<le> MAXORDINAL then Inr (ordinal - i) else Inl OverflowError)"

text \<open>A list comprehension: the elements in order, up to the first one that raises.\<close>

fun comprehension :: "('a \<Rightarrow> 'b raising) \<Rightarrow> 'a list \<Rightarrow> 'b list raising" where
  "comprehension f [] = Inr []"
| "comprehension f (x # xs) =
     (case f x of
        Inl e \<Rightarrow> Inl e
      | Inr y \<Rightarrow> (case comprehension f xs of Inl e \<Rightarrow> Inl e | Inr ys \<Rightarrow> Inr (y # ys)))"

text \<open>
  \<^verbatim>\<open>generate_date_list(days)\<close>. The clock is read once for every element of the
  comprehension: \<open>clock i\<close> is the date (its ordinal) that the call of \<^verbatim>\<open>datetime.now()\<close>
  for the index \<open>i\<close> returns. \<^verbatim>\<open>range(days)\<close> is empty for \<open>days \<le> 0\<close>, and \<^verbatim>\<open>[::-1]\<close>
  reverses.
\<close>

definition generate_date_list :: "(nat \<Rightarrow> nat) \<Rightarrow> int \<Rightarrow> string list raising" where
  "generate_date_list clock days =
     (case comprehension
             (\<lambda>i. case minus_days (clock i) i of Inl e \<Rightarrow> Inl e | Inr d \<Rightarrow> Inr (strftime d))
             [0..<nat days] of
        Inl e \<Rightarrow> Inl e
      | Inr ds \<Rightarrow> Inr (rev ds))"

text \<open>The shape \<^verbatim>\<open>YYYY-MM-DD\<close>: ten characters, digits but for the two hyphens.\<close>

definition iso_date_format :: "string \<Rightarrow> bool" where
  "iso_date_format s =
     (length s = 10 \<and> s ! 4 = CHR ''-'' \<and> s ! 7 = CHR ''-''
      \<and> list_all (\<lambda>i. is_digit (s ! i)) [0, 1, 2, 3, 5, 6, 8, 9])"

section \<open>HTTP client\<close>

text \<open>
  A response has a status code and a body; the body is given by what \<^verbatim>\<open>response.json()\<close>
  makes of it. An endpoint says how the server answers the attempts of one call: \<open>ep k\<close> is
  its response to attempt number \<open>k\<close>, counted from 0. The web maps a URL to its endpoint.
\<close>

record 'b response =
  status_code :: nat
  content :: 'b

type_synonym 'b endpoint = "nat \<Rightarrow> 'b response"

text \<open>
  The retry strategy handed to the adapter (\<^verbatim>\<open>Retry(total=..., status_forcelist=...,
  allowed_methods=...)\<close>); the backoff factor only sets the pauses between attempts.
\<close>

record retry =
  total :: nat
  status_forcelist :: "nat list"
  allowed_methods :: "string list"

definition is_retry :: "retry \<Rightarrow> string \<Rightarrow> nat \<Rightarrow> bool" where
  "is_retry strategy method status =
     (method \<in> set (allowed_methods strategy) \<and> status \<in> set (status_forcelist strategy))"

text \<open>
  The library's loop behind \<^verbatim>\<open>session.get\<close>: a response whose status asks for a retry is
  followed by another attempt while the budget \<open>left\<close> lasts, and by \<^verbatim>\<open>RetryError\<close> once it
  is spent; any other response is returned. The second component counts the attempts made.
\<close>

fun send :: "retry \<Rightarrow> 'b endpoint \<Rightarrow> nat \<Rightarrow> nat \<Rightarrow> 'b response raising \<times> nat" where
  "send strategy ep 0 k =
     (if is_retry strategy ''GET'' (status_code (ep k)) then (Inl RetryError, Suc k)
      else (Inr (ep k), Suc k))"
| "send strategy ep (Suc left) k =
     (if is_retry strategy ''GET'' (status_code (ep k)) then send strategy ep left (Suc k)
      else (Inr (ep k), Suc k))"

definition session_get :: "retry \<Rightarrow> 'b endpoint \<Rightarrow> 'b response raising \<times> nat" where
  "session_get strategy ep = send strategy ep (total strategy) 0"

text \<open>\<^verbatim>\<open>response.raise_for_status()\<close>\<close>

definition raise_for_status :: "'b response \<Rightarrow> unit raising" where
  "raise_for_status r =
     (if 400 \<le> status_code r \<and> status_code r < 600 then Inl (HTTPError (status_code r))
      else Inr ())"

text \<open>
  \<^verbatim>\<open>requests_get_with_retry(url, retries)\<close>: the response or the exception, which the
  handler logs and raises again, and the number of attempts made.
\<close>

definition requests_get_with_retry ::
  "(string \<Rightarrow> 'b endpoint) \<Rightarrow> string \<Rightarrow> nat \<Rightarrow> 'b response raising \<times> nat" where
  "requests_get_with_retry web url retries =
     (let retry_strategy =
            \<lparr>total = retries, status_forcelist = [429, 500, 502, 503, 504],
             allowed_methods = [''HEAD'', ''GET'', ''OPTIONS'']\<rparr>;
          (got, attempts) = session_get retry_strategy (web url)
      in case got of
           Inl e \<Rightarrow> (Inl e, attempts)
         | Inr response \<Rightarrow>
             (case raise_for_status response of
                Inl e \<Rightarrow> (Inl e, attempts)
              | Inr _ \<Rightarrow> (Inr response, attempts)))"

section \<open>Historical series\<close>

text \<open>
  A decoded JSON value; an object is the list of the items of the \<^verbatim>\<open>dict\<close> it decodes to,
  in their order. The body of a response is \<open>None\<close> when it is not valid JSON.
\<close>

datatype 'n json =
    JNull
  | JBool bool
  | JNum 'n
  | JStr string
  | JArr "'n json list"
  | JObj "(string \<times> 'n json) list"

type_synonym 'n web = "string \<Rightarrow> 'n json option endpoint"

text \<open>\<^verbatim>\<open>safe_json_load(res)\<close>: the decoded body, or \<^verbatim>\<open>{}\<close> when decoding fails.\<close>

definition safe_json_load :: "'n json option response \<Rightarrow> 'n json" where
  "safe_json_load res = (case content res of None \<Rightarrow> JObj [] | Some v \<Rightarrow> v)"

text \<open>
  \<^verbatim>\<open>json_data.get("rates", {})\<close> and \<^verbatim>\<open>rates.items()\<close>: only a \<^verbatim>\<open>dict\<close> has these
  methods.
\<close>

definition get_rates :: "'n json \<Rightarrow> 'n json raising" where
  "get_rates json_data =
     (case json_data of
        JObj kvs \<Rightarrow> (case map_of kvs ''rates'' of None \<Rightarrow> Inr (JObj []) | Some v \<Rightarrow> Inr v)
      | _ \<Rightarrow> Inl AttributeError)"

definition items :: "'n json \<Rightarrow> (string \<times> 'n json) list raising" where
  "items rates = (case rates of JObj kvs \<Rightarrow> Inr kvs | _ \<Rightarrow> Inl AttributeError)"

record 'n historical_row = "'n json rate_row" +
  Date :: string

text \<open>What the run does besides building its rows: the requests, the pauses, the warnings.\<close>

datatype event =
    Requested string
  | Slept nat
  | Warned string

text \<open>
  The target currencies: the fixed list, from which \<^verbatim>\<open>remove\<close> takes the first occurrence
  of the base.
\<close>

definition target_currencies :: "string \<Rightarrow> string list" where
  "target_currencies base =
     (let targets = [''EUR'', ''USD'', ''JPY'', ''GBP'', ''TRY'', ''CAD'', ''INR'', ''CNY'']
      in if base \<in> set targets then remove1 base targets else targets)"

definition request_url :: "string \<Rightarrow> string \<Rightarrow> string" where
  "request_url base date =
     ''https://api.exchangerate.host/'' @ date @ ''?base='' @ base @ ''&symbols=''
       @ join '','' (target_currencies base)"

text \<open>
  The statements of the \<^verbatim>\<open>try\<close> block up to the loop over the items; none of them changes
  \<^verbatim>\<open>all_data\<close>, and nothing after them raises.
\<close>

definition day_rates :: "'n web \<Rightarrow> string \<Rightarrow> (string \<times> 'n json) list raising" where
  "day_rates web url =
     (case fst (requests_get_with_retry web url 3) of
        Inl e \<Rightarrow> Inl e
      | Inr res \<Rightarrow>
          (case get_rates (safe_json_load res) of
             Inl e \<Rightarrow> Inl e
           | Inr rates \<Rightarrow> items rates))"

text \<open>
  One turn of the loop over the dates, on the rows gathered so far and the events so far.
  The pause of 0.1 seconds (100 milliseconds) ends the \<^verbatim>\<open>try\<close> block; the handler warns
  and goes on to the next date.
\<close>

definition fetch_day ::
  "'n web \<Rightarrow> string \<Rightarrow> 'n historical_row list \<times> event list \<Rightarrow> string
     \<Rightarrow> 'n historical_row list \<times> event list" where
  "fetch_day web base st date =
     (case st of (all_data, events) \<Rightarrow>
        (let url = request_url base date in
         case day_rates web url of
           Inr rates \<Rightarrow>
             (all_data @ map (\<lambda>(curr, val). \<lparr>Currency = curr, Rate = val, Date = date\<rparr>) rates,
              events @ [Requested url, Slept 100])
         | Inl e \<Rightarrow> (all_data, events @ [Requested url, Warned date])))"

text \<open>
  \<^verbatim>\<open>fetch_historical_data(base, days)\<close>: the rows of the returned frame, or the exception
  of the date list, which is raised outside every \<^verbatim>\<open>try\<close>; and the events.
\<close>

definition fetch_historical_data ::
  "(nat \<Rightarrow> nat) \<Rightarrow> 'n web \<Rightarrow> string \<Rightarrow> int \<Rightarrow> 'n historical_row list raising \<times> event list" where
  "fetch_historical_data clock web base days =
     (case generate_date_list clock days of
        Inl e \<Rightarrow> (Inl e, [])
      | Inr dates \<Rightarrow>
          (case foldl (fetch_day web base) ([], []) dates of
             (all_data, events) \<Rightarrow> (Inr all_data, events)))"

text \<open>
  A day succeeds with a rates mapping when its request returns a response whose body is a
  JSON object with a \<^verbatim>\<open>rates\<close> member that is itself an object; \<open>delivered_rates\<close> is then
  that mapping.
\<close>

definition delivered_rates :: "'n web \<Rightarrow> string \<Rightarrow> (string \<times> 'n json) list option" where
  "delivered_rates web url =
     (case fst (requests_get_with_retry web url 3) of
        Inl e \<Rightarrow> None
      | Inr res \<Rightarrow>
          (case content res of
             Some (JObj kvs) \<Rightarrow>
               (case map_of kvs ''rates'' of Some (JObj rates) \<Rightarrow> Some rates | _ \<Rightarrow> None)
           | _ \<Rightarrow> None))"

text \<open>A day completes when its \<^verbatim>\<open>try\<close> block runs to its end.\<close>

definition day_completes :: "'n web \<Rightarrow> string \<Rightarrow> bool" where
  "day_completes web url = (case day_rates web url of Inr _ \<Rightarrow> True | Inl _ \<Rightarrow> False)"

text \<open>The rows and the events that one date adds to a run.\<close>

definition day_rows :: "'n web \<Rightarrow> string \<Rightarrow> string \<Rightarrow> 'n historical_row list" where
  "day_rows web base date =
     (case day_rates web (request_url base date) of
        Inr rates \<Rightarrow> map (\<lambda>(curr, val). \<lparr>Currency = curr, Rate = val, Date = date\<rparr>) rates
      | Inl e \<Rightarrow> [])"

definition day_events :: "'n web \<Rightarrow> string \<Rightarrow> string \<Rightarrow> event list" where
  "day_events web base date =
     [Requested (request_url base date),
      if day_completes web (request_url base date) then Slept 100 else Warned date]"

definition is_pause :: "event \<Rightarrow> bool" where
  "is_pause ev = (case ev of Slept ms \<Rightarrow> True | _ \<Rightarrow> False)"

definition is_request :: "event \<Rightarrow> bool" where
  "is_request ev = (case ev of Requested url \<Rightarrow> True | _ \<Rightarrow> False)"

subsection \<open>Example servers\<close>

text \<open>
  A server that answers the first two attempts of a call with status 503 and the third with
  200; one that is down, answering 503 always; one that has no such page.
\<close>

definition flaky_web :: "string \<Rightarrow> unit endpoint" where
  "flaky_web url k = \<lparr>status_code = (if k < 2 then 503 else 200), content = ()\<rparr>"

definition down_web :: "rat web" where
  "down_web url k = \<lparr>status_code = 503, content = None\<rparr>"

definition missing_web :: "string \<Rightarrow> unit endpoint" where
  "missing_web url k = \<lparr>status_code = 404, content = ()\<rparr>"

text \<open>
  The scenario of the specification: base \<^verbatim>\<open>USD\<close>, three days, the first two answered with
  a rate for \<^verbatim>\<open>EUR\<close> and the third failing. Today is 2026-11-04, day 739924.
\<close>

definition scenario_web :: "rat web" where
  "scenario_web url k =
     (if url = request_url ''USD'' ''2026-11-02''
      then \<lparr>status_code = 200, content = Some (JObj [(''rates'', JObj [(''EUR'', JNum (9 / 10))])])\<rparr>
      else if url = request_url ''USD'' ''2026-11-03''
      then \<lparr>status_code = 200, content = Some (JObj [(''rates'', JObj [(''EUR'', JNum (91 / 100))])])\<rparr>
      else \<lparr>status_code = 503, content = None\<rparr>)"

text \<open>A server that answers every request with the rate of the dollar alone.\<close>

definition dollar_web :: "rat web" where
  "dollar_web url k =
     \<lparr>status_code = 200, content = Some (JObj [(''rates'', JObj [(''USD'', JNum 1)])])\<rparr>"

section \<open>Properties of the live table parser\<close>

lemmas example_simps =
  strip_def py_isspace_def replace_comma_def decimal_float_def unsigned_decimal_def
  is_digit_def digits_val_def digit_val_def well_formed_def row_record_def

lemma strip_strip: "strip (strip s) = strip s"
proof -
  define a where "a = dropWhile py_isspace s"
  define b where "b = dropWhile py_isspace (rev a)"
  have s: "strip s = rev b" by (simp add: strip_def a_def b_def)
  have b_idem: "dropWhile py_isspace b = b"
    by (simp add: b_def)
  have front: "dropWhile py_isspace (rev b) = rev b"
  proof (cases "b = []")
    case True
    then show ?thesis by simp
  next
    case False
    have "rev a = takeWhile py_isspace (rev a) @ b"
      by (simp add: b_def)
    then have "a = rev b @ rev (takeWhile py_isspace (rev a))"
      by (metis rev_append rev_rev_ident)
    with False have hd_eq: "hd (rev b) = hd a" and "a \<noteq> []"
      by (metis hd_append2 rev_is_Nil_conv, metis Nil_is_append_conv rev_is_Nil_conv)
    then have "\<not> py_isspace (hd a)"
      unfolding a_def by (metis hd_dropWhile)
    with hd_eq False show ?thesis
      by (simp add: dropWhile_eq_self_iff)
  qed
  have "strip (rev b) = rev b"
    by (simp add: strip_def front b_idem)
  with s show ?thesis by simp
qed

subsection \<open>Documents whose calls never raise\<close>

lemma parse_rows_html:
  "parse_rows pf (html_rows rows) data lg =
     (Inr (data @ map (row_record pf) (filter (well_formed pf) rows)),
      lg @ unparsed_warnings pf rows)"
proof (induction rows arbitrary: data lg)
  case Nil
  show ?case by (simp add: html_rows_def unparsed_warnings_def)
next
  case (Cons cells rows)
  have step: "html_rows (cells # rows) = Inr (map Inr cells) # html_rows rows"
    by (simp add: html_rows_def)
  show ?case
  proof (cases "2 \<le> length cells")
    case False
    then show ?thesis
      using Cons.IH [of data lg]
      by (simp add: step well_formed_def unparsed_warnings_def)
  next
    case True
    then have "0 < length cells" and "1 < length cells" by auto
    then have c0: "map Inr cells ! 0 = (Inr (cells ! 0) :: td)"
      and c1: "map Inr cells ! 1 = (Inr (cells ! 1) :: td)"
      by simp_all
    show ?thesis
    proof (cases "pf (replace_comma (strip (cells ! 1)))")
      case None
      then show ?thesis
        using True Cons.IH [of data "lg @ [Could_not_parse_rate (strip (cells ! 0))]"]
        by (simp add: step c0 c1 rate_of_cell_def well_formed_def unparsed_warnings_def)
    next
      case (Some rate)
      then show ?thesis
        using True Cons.IH [of "data @ [\<lparr>Currency = strip (cells ! 0), Rate = rate\<rparr>]" lg]
        by (simp add: step c0 c1 rate_of_cell_def well_formed_def unparsed_warnings_def
            row_record_def)
    qed
  qed
qed

lemma parse_body_html:
  "parse_body pf (html_doc (Some (header # rows))) =
     (Inr (map (row_record pf) (filter (well_formed pf) rows)), unparsed_warnings pf rows)"
  using parse_rows_html [of pf rows "[]" "[]"]
  by (simp add: parse_body_def html_doc_def html_rows_def)

text \<open>
  Claim C2. Let the located table have a first row \<open>header\<close> followed by \<open>rows\<close>, in which
  well-formed rows (two cells or more, the second parsing as a float once trimmed and freed
  of commas) are interleaved in any way with rows that are not. The parser returns, without
  raising, exactly one record per well-formed row, in the order of the document, with the
  trimmed first cell as currency and the parsed float as rate; the first row is skipped
  whatever it holds. So \<open>N\<close> well-formed rows give \<open>N\<close> records.
\<close>

theorem parse_returns_well_formed_rows:
  "fst (parse_exchange_table pf (html_doc (Some (header # rows)))) =
     Inr (map (row_record pf) (filter (well_formed pf) rows))
   \<and> length (map (row_record pf) (filter (well_formed pf) rows)) =
       length (filter (well_formed pf) rows)"
  by (simp add: parse_exchange_table_def parse_body_html)

theorem parse_returns_well_formed_rows_witness:
  "fst (parse_exchange_table decimal_float
     (html_doc (Some [[''Currency'', ''Rate''], [''Euro'', '' 0.92 ''], [''Yen'', ''N/A''],
                      [''Rupee'', ''1,234.5''], [''Lira'']]))) =
   Inr [\<lparr>Currency = ''Euro'', Rate = 23 / 25\<rparr>, \<lparr>Currency = ''Rupee'', Rate = 2469 / 2\<rparr>]"
  using parse_returns_well_formed_rows [of decimal_float "[''Currency'', ''Rate'']"
    "[[''Euro'', '' 0.92 ''], [''Yen'', ''N/A''], [''Rupee'', ''1,234.5''], [''Lira'']]"]
  by (simp add: example_simps)

subsection \<open>Any document\<close>

lemma rate_of_cell_Inr:
  "rate_of_cell pf c = Inr rate \<Longrightarrow> \<exists>t1. c = Inr t1 \<and> pf (replace_comma (strip t1)) = Some rate"
  by (auto simp: rate_of_cell_def split: sum.splits option.splits)

lemma from_cells_Cons: "from_cells pf rows r \<Longrightarrow> from_cells pf (row # rows) r"
  by (auto simp: from_cells_def)

lemma parse_rows_sound:
  "parse_rows pf rows data lg = (Inr df, lg') \<Longrightarrow> r \<in> set df \<Longrightarrow>
     r \<in> set data \<or> from_cells pf rows r"
proof (induction rows arbitrary: data lg)
  case Nil
  then show ?case by simp
next
  case (Cons row rows)
  show ?case
  proof (cases row)
    case (Inl e)
    with Cons.prems show ?thesis by simp
  next
    case (Inr cols)
    show ?thesis
    proof (cases "2 \<le> length cols")
      case False
      with Inr Cons.prems have "parse_rows pf rows data lg = (Inr df, lg')" by simp
      from Cons.IH [OF this Cons.prems(2)] show ?thesis
        by (auto intro: from_cells_Cons)
    next
      case True
      show ?thesis
      proof (cases "cols ! 0")
        case (Inl e)
        with Inr True Cons.prems show ?thesis by simp
      next
        case c0: (Inr t0)
        show ?thesis
        proof (cases "rate_of_cell pf (cols ! 1)")
          case (Inl e)
          with Inr True c0 Cons.prems
          have "parse_rows pf rows data (lg @ [Could_not_parse_rate (strip t0)]) = (Inr df, lg')"
            by (simp split: if_splits)
          from Cons.IH [OF this Cons.prems(2)] show ?thesis
            by (auto intro: from_cells_Cons)
        next
          case r1: (Inr rate)
          with Inr True c0 Cons.prems
          have "parse_rows pf rows (data @ [\<lparr>Currency = strip t0, Rate = rate\<rparr>]) lg
                  = (Inr df, lg')"
            by simp
          from Cons.IH [OF this Cons.prems(2)]
          consider "r \<in> set data" | "r = \<lparr>Currency = strip t0, Rate = rate\<rparr>"
            | "from_cells pf rows r"
            by auto
          then show ?thesis
          proof cases
            case 1
            then show ?thesis by simp
          next
            case 2
            from rate_of_cell_Inr [OF r1] obtain t1
              where "cols ! 1 = Inr t1" and "pf (replace_comma (strip t1)) = Some rate"
              by blast
            with 2 True c0 Inr have "from_cells pf (row # rows) r"
              unfolding from_cells_def
              by (intro exI [of _ cols] exI [of _ t0] exI [of _ t1]) simp
            then show ?thesis by simp
          next
            case 3
            then show ?thesis by (simp add: from_cells_Cons)
          qed
        qed
      qed
    qed
  qed
qed

lemma parse_body_sound:
  "parse_body pf soup = (Inr df, lg) \<Longrightarrow> r \<in> set df \<Longrightarrow>
     \<exists>trs. soup = Inr (Some (Inr trs)) \<and> from_cells pf (drop 1 trs) r"
  by (auto simp: parse_body_def split: sum.splits option.splits dest: parse_rows_sound)

text \<open>
  Claim C9, as the code has it. The parser checks neither the shape of the currency code nor
  the sign of the rate. What holds of every record it returns, for any document: the record
  comes from a row after the first one with two cells or more; its currency is the text of
  the first cell with the surrounding white space removed (so it has none itself), of any
  length and in any letters; its rate is the float that the second cell parses to, of any
  sign.
\<close>

theorem parsed_record_from_cells:
  assumes "fst (parse_exchange_table pf soup) = Inr df" and "r \<in> set df"
  shows "\<exists>trs cols t0 t1. soup = Inr (Some (Inr trs)) \<and> Inr cols \<in> set (drop 1 trs)
           \<and> 2 \<le> length cols \<and> cols ! 0 = Inr t0 \<and> cols ! 1 = Inr t1
           \<and> Currency r = strip t0 \<and> strip (Currency r) = Currency r
           \<and> pf (replace_comma (strip t1)) = Some (Rate r)"
proof -
  obtain res lg where pb: "parse_body pf soup = (res, lg)"
    by (cases "parse_body pf soup")
  show ?thesis
  proof (cases res)
    case (Inl e)
    with pb assms show ?thesis by (simp add: parse_exchange_table_def)
  next
    case (Inr df')
    with pb assms have "parse_body pf soup = (Inr df, lg)"
      by (simp add: parse_exchange_table_def)
    from parse_body_sound [OF this assms(2)] show ?thesis
      unfolding from_cells_def by (metis strip_strip)
  qed
qed

theorem parsed_record_from_cells_witness:
  "fst (parse_exchange_table decimal_float
          (html_doc (Some [[''Currency'', ''Rate''], ['' Euro'', ''0.92'']]))) =
     Inr [\<lparr>Currency = ''Euro'', Rate = 23 / 25\<rparr>]
   \<and> (\<exists>trs cols t0 t1.
         html_doc (Some [[''Currency'', ''Rate''], ['' Euro'', ''0.92'']]) = Inr (Some (Inr trs))
         \<and> Inr cols \<in> set (drop 1 trs) \<and> 2 \<le> length cols
         \<and> cols ! 0 = Inr t0 \<and> cols ! 1 = Inr t1
         \<and> ''Euro'' = strip t0 \<and> strip ''Euro'' = ''Euro''
         \<and> decimal_float (replace_comma (strip t1)) = Some (23 / 25))"
proof -
  have h: "fst (parse_exchange_table decimal_float
                 (html_doc (Some [[''Currency'', ''Rate''], ['' Euro'', ''0.92'']]))) =
           Inr [\<lparr>Currency = ''Euro'', Rate = 23 / 25\<rparr>]"
    by (simp add: parse_exchange_table_def parse_body_html example_simps)
  from parsed_record_from_cells [OF h, of "\<lparr>Currency = ''Euro'', Rate = 23 / 25\<rparr>"] h
  show ?thesis by simp
qed

text \<open>
  Claim C9 as stated fails: the row \<^verbatim>\<open>Euro | 0.92\<close> gives a record whose currency is the
  four-letter name, and the row \<^verbatim>\<open>Loss | -1.5\<close> one whose rate is negative.
\<close>

theorem live_rate_invariant_counterexample:
  "fst (parse_exchange_table decimal_float
      (html_doc (Some [[''Currency'', ''Rate''], [''Euro'', ''0.92''], [''Loss'', ''-1.5'']]))) =
     Inr [\<lparr>Currency = ''Euro'', Rate = 23 / 25\<rparr>, \<lparr>Currency = ''Loss'', Rate = - (3 / 2)\<rparr>]
   \<and> \<not> valid_live_rate \<lparr>Currency = ''Euro'', Rate = 23 / 25\<rparr>
   \<and> \<not> valid_live_rate \<lparr>Currency = ''Loss'', Rate = - (3 / 2)\<rparr>"
  by (simp add: parse_exchange_table_def parse_body_html example_simps valid_live_rate_def
      is_upper_def)

text \<open>
  Claim C10. The parser is total at its interface: whatever the document does (no table,
  rows with missing cells, a call that raises while the table is read), the caller gets a
  frame, possibly empty, and no exception.
\<close>

theorem parse_exchange_table_total:
  "\<exists>df. fst (parse_exchange_table pf soup) = Inr df"
  by (cases "parse_body pf soup") (auto simp: parse_exchange_table_def split: sum.splits)

text \<open>
  Claim C6, as the code has it. When the table is absent the parser returns an empty frame
  and logs the warning that the table was not found; nothing else happens, and no error
  value or exception reaches the caller.
\<close>

theorem table_absent_returns_empty:
  "parse_exchange_table pf (Inr None) = (Inr [], [Table_not_found])"
  by (simp add: parse_exchange_table_def parse_body_def)

text \<open>
  Claim C6 as stated fails in its second part: what the caller gets for a document without
  the table is the empty frame, the very value it gets for a table that has a header row
  only, so no parse error is signalled to it.
\<close>

theorem table_absent_counterexample:
  "fst (parse_exchange_table decimal_float (html_doc None)) = Inr []
   \<and> fst (parse_exchange_table decimal_float (html_doc None)) =
       fst (parse_exchange_table decimal_float (html_doc (Some [[''Currency'', ''Rate'']])))"
  by (simp add: parse_exchange_table_def parse_body_def html_doc_def html_rows_def)

section \<open>Properties of the HTTP client\<close>

lemma is_retry_configured:
  "is_retry \<lparr>total = n, status_forcelist = [429, 500, 502, 503, 504],
             allowed_methods = [''HEAD'', ''GET'', ''OPTIONS'']\<rparr> ''GET'' s
     = (s \<in> {429, 500, 502, 503, 504})"
  by (auto simp: is_retry_def)

lemma send_all_retry:
  "(\<forall>j \<le> left. is_retry strategy ''GET'' (status_code (ep (k + j)))) \<Longrightarrow>
     send strategy ep left k = (Inl RetryError, Suc (k + left))"
proof (induction left arbitrary: k)
  case 0
  then show ?case by simp
next
  case (Suc left)
  have "is_retry strategy ''GET'' (status_code (ep k))"
    using Suc.prems [rule_format, of 0] by simp
  moreover have "\<forall>j \<le> left. is_retry strategy ''GET'' (status_code (ep (Suc k + j)))"
    using Suc.prems by (metis Suc_le_mono add_Suc_shift)
  ultimately show ?case
    using Suc.IH [of "Suc k"] by simp
qed

lemma send_no_retry:
  "\<not> is_retry strategy ''GET'' (status_code (ep k)) \<Longrightarrow>
     send strategy ep left k = (Inr (ep k), Suc k)"
  by (cases left) simp_all

text \<open>
  Claim C3. With \<open>retries = 3\<close>, an endpoint that answers 503 twice and then 200 gives the
  third response after exactly 3 attempts, and an endpoint that answers 503 always gives
  \<^verbatim>\<open>RetryError\<close>, a network error, after exactly 4 attempts. For any number of retries,
  statuses from the list 429, 500, 502, 503, 504 on all attempts end in the error after
  \<open>retries + 1\<close> attempts, and a first status outside the list is never retried: one attempt
  is made.
\<close>

theorem retry_attempts:
  fixes web :: "string \<Rightarrow> 'b endpoint"
  shows "(status_code (web url 0) = 503 \<and> status_code (web url 1) = 503
            \<and> status_code (web url 2) = 200
          \<longrightarrow> requests_get_with_retry web url 3 = (Inr (web url 2), 3))
       \<and> ((\<forall>k. status_code (web url k) = 503)
          \<longrightarrow> requests_get_with_retry web url 3 = (Inl RetryError, 4))
       \<and> ((\<forall>k \<le> retries. status_code (web url k) \<in> {429, 500, 502, 503, 504})
          \<longrightarrow> requests_get_with_retry web url retries = (Inl RetryError, retries + 1))
       \<and> (status_code (web url 0) \<notin> {429, 500, 502, 503, 504}
          \<longrightarrow> snd (requests_get_with_retry web url retries) = 1)"
proof (intro conjI impI)
  assume "status_code (web url 0) = 503 \<and> status_code (web url 1) = 503
            \<and> status_code (web url 2) = 200"
  then have s0: "status_code (web url 0) = 503" and s1: "status_code (web url (Suc 0)) = 503"
    and s2: "status_code (web url (Suc (Suc 0))) = 200"
    by (simp_all add: numeral_2_eq_2)
  have three: "(3::nat) = Suc (Suc (Suc 0))" by simp
  have "send \<lparr>total = 3, status_forcelist = [429, 500, 502, 503, 504],
              allowed_methods = [''HEAD'', ''GET'', ''OPTIONS'']\<rparr> (web url) (Suc (Suc (Suc 0))) 0
          = (Inr (web url (Suc (Suc 0))), Suc (Suc (Suc 0)))"
    by (simp add: is_retry_configured s0 s1 s2)
  then have "send \<lparr>total = 3, status_forcelist = [429, 500, 502, 503, 504],
              allowed_methods = [''HEAD'', ''GET'', ''OPTIONS'']\<rparr> (web url) 3 0
          = (Inr (web url 2), 3)"
    by (simp only: three numeral_2_eq_2)
  then show "requests_get_with_retry web url 3 = (Inr (web url 2), 3)"
    using s2 by (simp add: requests_get_with_retry_def session_get_def raise_for_status_def
        numeral_2_eq_2)
next
  assume a: "\<forall>k. status_code (web url k) = 503"
  have "send \<lparr>total = 3, status_forcelist = [429, 500, 502, 503, 504],
              allowed_methods = [''HEAD'', ''GET'', ''OPTIONS'']\<rparr> (web url) 3 0
          = (Inl RetryError, Suc (0 + 3))"
    by (rule send_all_retry) (simp add: is_retry_configured a)
  then show "requests_get_with_retry web url 3 = (Inl RetryError, 4)"
    by (simp add: requests_get_with_retry_def session_get_def)
next
  assume a: "\<forall>k \<le> retries. status_code (web url k) \<in> {429, 500, 502, 503, 504}"
  have "send \<lparr>total = retries, status_forcelist = [429, 500, 502, 503, 504],
              allowed_methods = [''HEAD'', ''GET'', ''OPTIONS'']\<rparr> (web url) retries 0
          = (Inl RetryError, Suc (0 + retries))"
    using a by (intro send_all_retry) (simp add: is_retry_configured)
  then show "requests_get_with_retry web url retries = (Inl RetryError, retries + 1)"
    by (simp add: requests_get_with_retry_def session_get_def)
next
  assume "status_code (web url 0) \<notin> {429, 500, 502, 503, 504}"
  then have "send \<lparr>total = retries, status_forcelist = [429, 500, 502, 503, 504],
              allowed_methods = [''HEAD'', ''GET'', ''OPTIONS'']\<rparr> (web url) retries 0
          = (Inr (web url 0), Suc 0)"
    by (intro send_no_retry) (simp add: is_retry_configured)
  then show "snd (requests_get_with_retry web url retries) = 1"
    by (simp add: requests_get_with_retry_def session_get_def split: sum.splits)
qed

theorem retry_attempts_witness:
  "requests_get_with_retry flaky_web ''https://x'' 3 =
     (Inr \<lparr>status_code = 200, content = ()\<rparr>, 3)
   \<and> requests_get_with_retry down_web ''https://x'' 3 = (Inl RetryError, 4)
   \<and> requests_get_with_retry down_web ''https://x'' 5 = (Inl RetryError, 6)
   \<and> snd (requests_get_with_retry missing_web ''https://x'' 3) = 1"
  using retry_attempts [of flaky_web "''https://x''" 3]
    retry_attempts [of down_web "''https://x''" 5]
    retry_attempts [of missing_web "''https://x''" 3]
  by (simp add: flaky_web_def down_web_def missing_web_def)

section \<open>Properties of the historical series\<close>

lemma comprehension_length: "comprehension f xs = Inr ys \<Longrightarrow> length ys = length xs"
  by (induction xs arbitrary: ys) (auto split: sum.splits)

lemma generate_date_list_length:
  "generate_date_list clock days = Inr dates \<Longrightarrow> length dates = nat days"
  by (auto simp: generate_date_list_def split: sum.splits dest: comprehension_length)

lemma fetch_day_eq:
  "fetch_day web base (all_data, events) date =
     (all_data @ day_rows web base date, events @ day_events web base date)"
  by (simp add: fetch_day_def day_rows_def day_events_def day_completes_def Let_def
      split: sum.splits)

lemma foldl_fetch_day:
  "foldl (fetch_day web base) (all_data, events) dates =
     (all_data @ concat (map (day_rows web base) dates),
      events @ concat (map (day_events web base) dates))"
  by (induction dates arbitrary: all_data events) (simp_all add: fetch_day_eq)

lemma fetch_historical_data_eq:
  "generate_date_list clock days = Inr dates \<Longrightarrow>
     fetch_historical_data clock web base days =
       (Inr (concat (map (day_rows web base) dates)), concat (map (day_events web base) dates))"
  by (simp add: fetch_historical_data_def foldl_fetch_day)

lemma day_rates_cases:
  "(\<exists>rates. day_rates web url = Inr rates \<and> delivered_rates web url = Some rates)
   \<or> (day_rates web url = Inr [] \<and> delivered_rates web url = None)
   \<or> (\<exists>e. day_rates web url = Inl e \<and> delivered_rates web url = None)"
  by (auto simp: day_rates_def delivered_rates_def safe_json_load_def get_rates_def items_def
      split: sum.splits option.splits json.splits)

lemma length_day_rows:
  "length (day_rows web base date) =
     (case delivered_rates web (request_url base date) of
        Some rates \<Rightarrow> length rates | None \<Rightarrow> 0)"
  using day_rates_cases [of web "request_url base date"]
  by (auto simp: day_rows_def)

lemma length_concat_sum: "length (concat xss) = sum_list (map length xss)"
  by (induction xss) simp_all

lemma decimal_small: "n < 10 \<Longrightarrow> decimal n = [digit_char n]"
  by (simp add: decimal.simps)

lemma decimal_big: "\<not> n < 10 \<Longrightarrow> decimal n = decimal (n div 10) @ [digit_char (n mod 10)]"
  by (subst decimal.simps) simp

lemmas date_simps =
  strftime_def ord2ymd_def Let_def zpad_def decimal_small decimal_big digit_char_def
  DAYS_BEFORE_MONTH_def DAYS_IN_MONTH_def minus_days_def MAXORDINAL_def generate_date_list_def

lemma upt_0_3: "[0..<3] = [0, 1, 2::nat]"
  by (simp add: upt_rec)

lemma today_dates_3:
  "generate_date_list (\<lambda>i. 739924) 3 = Inr [''2026-11-02'', ''2026-11-03'', ''2026-11-04'']"
  by (simp add: date_simps upt_0_3)

lemma today_dates_1:
  "generate_date_list (\<lambda>i. 739924) 1 = Inr [''2026-11-04'']"
  by (simp add: date_simps)

lemma requests_returns:
  assumes "status_code (web url 0) \<notin> {429, 500, 502, 503, 504}"
    and "\<not> (400 \<le> status_code (web url 0) \<and> status_code (web url 0) < 600)"
  shows "fst (requests_get_with_retry web url retries) = Inr (web url 0)"
proof -
  have "send \<lparr>total = retries, status_forcelist = [429, 500, 502, 503, 504],
              allowed_methods = [''HEAD'', ''GET'', ''OPTIONS'']\<rparr> (web url) retries 0
          = (Inr (web url 0), Suc 0)"
    using assms(1) by (intro send_no_retry) (simp add: is_retry_configured)
  then show ?thesis
    using assms(2) by (simp add: requests_get_with_retry_def session_get_def raise_for_status_def)
qed

lemma requests_exhausted:
  assumes "\<forall>k. status_code (web url k) \<in> {429, 500, 502, 503, 504}"
  shows "fst (requests_get_with_retry web url retries) = Inl RetryError"
proof -
  have "send \<lparr>total = retries, status_forcelist = [429, 500, 502, 503, 504],
              allowed_methods = [''HEAD'', ''GET'', ''OPTIONS'']\<rparr> (web url) retries 0
          = (Inl RetryError, Suc (0 + retries))"
    using assms by (intro send_all_retry) (simp add: is_retry_configured)
  then show ?thesis
    by (simp add: requests_get_with_retry_def session_get_def)
qed

lemma scenario_delivered:
  "delivered_rates scenario_web (request_url ''USD'' ''2026-11-02'') = Some [(''EUR'', JNum (9 / 10))]"
  "delivered_rates scenario_web (request_url ''USD'' ''2026-11-03'') = Some [(''EUR'', JNum (91 / 100))]"
  "delivered_rates scenario_web (request_url ''USD'' ''2026-11-04'') = None"
proof -
  show "delivered_rates scenario_web (request_url ''USD'' ''2026-11-02'')
          = Some [(''EUR'', JNum (9 / 10))]"
    by (simp add: delivered_rates_def requests_returns scenario_web_def)
  show "delivered_rates scenario_web (request_url ''USD'' ''2026-11-03'')
          = Some [(''EUR'', JNum (91 / 100))]"
    by (simp add: delivered_rates_def requests_returns scenario_web_def request_url_def)
  have "fst (requests_get_with_retry scenario_web (request_url ''USD'' ''2026-11-04'') 3)
          = Inl RetryError"
    by (rule requests_exhausted) (simp add: scenario_web_def request_url_def)
  then show "delivered_rates scenario_web (request_url ''USD'' ''2026-11-04'') = None"
    by (simp add: delivered_rates_def)
qed

text \<open>
  Claim C1. A run over \<open>days\<close> days makes one request per date. The frame it returns has as
  many rows as the rates mappings of the days that succeeded have entries, summed over
  those days; every other day (the request fails, the body is not JSON, the \<^verbatim>\<open>rates\<close>
  member is missing or not a mapping) adds no row, and the run goes on with the next date.
\<close>

theorem assembled_length:
  assumes "generate_date_list clock days = Inr dates"
  shows "\<exists>df. fst (fetch_historical_data clock web base days) = Inr df
           \<and> length dates = nat days
           \<and> length df =
               (\<Sum>date\<leftarrow>dates. case delivered_rates web (request_url base date) of
                                 Some rates \<Rightarrow> length rates | None \<Rightarrow> 0)"
  using assms
  by (simp add: fetch_historical_data_eq generate_date_list_length length_concat_sum
      length_day_rows comp_def)

theorem assembled_length_witness:
  "generate_date_list (\<lambda>i. 739924) 3 = Inr [''2026-11-02'', ''2026-11-03'', ''2026-11-04'']
   \<and> (\<exists>df. fst (fetch_historical_data (\<lambda>i. 739924) scenario_web ''USD'' 3) = Inr df
          \<and> length df = 2)"
  using assembled_length [OF today_dates_3, of scenario_web "''USD''"]
  by (simp add: today_dates_3 scenario_delivered numeral_2_eq_2)

subsection \<open>The base currency\<close>

lemma day_rows_member:
  assumes "r \<in> set (day_rows web base date)"
  shows "\<exists>rates. delivered_rates web (request_url base date) = Some rates
           \<and> Currency r \<in> fst ` set rates \<and> Date r = date"
proof (cases "day_rates web (request_url base date)")
  case (Inl e)
  with assms show ?thesis by (simp add: day_rows_def)
next
  case (Inr rates)
  with assms obtain curr val where cv: "(curr, val) \<in> set rates"
    and r: "r = \<lparr>Currency = curr, Rate = val, Date = date\<rparr>"
    by (auto simp: day_rows_def)
  from cv have "rates \<noteq> []" by auto
  with Inr day_rates_cases [of web "request_url base date"]
  have "delivered_rates web (request_url base date) = Some rates" by auto
  moreover from cv r have "Currency r \<in> fst ` set rates" and "Date r = date"
    by (auto simp: image_iff intro: bexI [of _ "(curr, val)"])
  ultimately show ?thesis by blast
qed

lemma target_currencies_set:
  "set (target_currencies base) =
     {''EUR'', ''USD'', ''JPY'', ''GBP'', ''TRY'', ''CAD'', ''INR'', ''CNY''} - {base}"
proof -
  have d: "distinct [''EUR'', ''USD'', ''JPY'', ''GBP'', ''TRY'', ''CAD'', ''INR'', ''CNY'']"
    by simp
  show ?thesis
  proof (cases "base \<in> set [''EUR'', ''USD'', ''JPY'', ''GBP'', ''TRY'', ''CAD'', ''INR'', ''CNY'']")
    case True
    then have "target_currencies base =
        remove1 base [''EUR'', ''USD'', ''JPY'', ''GBP'', ''TRY'', ''CAD'', ''INR'', ''CNY'']"
      by (simp only: target_currencies_def Let_def if_True)
    then show ?thesis
      by (simp only: set_remove1_eq [OF d]) simp
  next
    case False
    then have "target_currencies base =
        [''EUR'', ''USD'', ''JPY'', ''GBP'', ''TRY'', ''CAD'', ''INR'', ''CNY'']"
      by (simp only: target_currencies_def Let_def if_False)
    with False show ?thesis by auto
  qed
qed

lemma requests_of_events:
  "filter is_request (concat (map (day_events web base) dates)) =
     map (\<lambda>date. Requested (request_url base date)) dates"
  by (induction dates) (simp_all add: day_events_def is_request_def)

text \<open>
  Claim C4, as the code has it. For every base, the symbols requested on each day are the
  fixed list of eight currencies without the base, one request being made per date. The
  rows, though, are whatever the answers hold: each row carries a key of the rates mapping
  delivered for its date, unfiltered. So no row carries the code of the base as long as no
  delivered mapping has the base among its keys.
\<close>

theorem base_never_requested:
  assumes "generate_date_list clock days = Inr dates"
    and "\<forall>date \<in> set dates. \<forall>rates.
           delivered_rates web (request_url base date) = Some rates \<longrightarrow> base \<notin> fst ` set rates"
  shows "set (target_currencies base) =
           {''EUR'', ''USD'', ''JPY'', ''GBP'', ''TRY'', ''CAD'', ''INR'', ''CNY''} - {base}
       \<and> filter is_request (snd (fetch_historical_data clock web base days)) =
           map (\<lambda>date. Requested (''https://api.exchangerate.host/'' @ date @ ''?base='' @ base
                  @ ''&symbols='' @ join '','' (target_currencies base))) dates
       \<and> (\<exists>df. fst (fetch_historical_data clock web base days) = Inr df
             \<and> (\<forall>r \<in> set df. Currency r \<noteq> base))"
proof (intro conjI)
  show "set (target_currencies base) =
          {''EUR'', ''USD'', ''JPY'', ''GBP'', ''TRY'', ''CAD'', ''INR'', ''CNY''} - {base}"
    by (rule target_currencies_set)
  show "filter is_request (snd (fetch_historical_data clock web base days)) =
          map (\<lambda>date. Requested (''https://api.exchangerate.host/'' @ date @ ''?base='' @ base
                 @ ''&symbols='' @ join '','' (target_currencies base))) dates"
    using requests_of_events [of web base dates]
    by (simp add: fetch_historical_data_eq [OF assms(1)] request_url_def)
  have "Currency r \<noteq> base" if "r \<in> set (concat (map (day_rows web base) dates))" for r
  proof -
    from that obtain date where "date \<in> set dates" and "r \<in> set (day_rows web base date)"
      by auto
    with day_rows_member [of r web base date] assms(2) show ?thesis
      by blast
  qed
  then show "\<exists>df. fst (fetch_historical_data clock web base days) = Inr df
               \<and> (\<forall>r \<in> set df. Currency r \<noteq> base)"
    by (simp add: fetch_historical_data_eq [OF assms(1)])
qed

theorem base_never_requested_witness:
  "generate_date_list (\<lambda>i. 739924) 3 = Inr [''2026-11-02'', ''2026-11-03'', ''2026-11-04'']
   \<and> set (target_currencies ''USD'') = {''EUR'', ''JPY'', ''GBP'', ''TRY'', ''CAD'', ''INR'', ''CNY''}
   \<and> (\<exists>df. fst (fetch_historical_data (\<lambda>i. 739924) scenario_web ''USD'' 3) = Inr df
          \<and> (\<forall>r \<in> set df. Currency r \<noteq> ''USD''))"
proof -
  have h: "\<forall>date \<in> set [''2026-11-02'', ''2026-11-03'', ''2026-11-04'']. \<forall>rates.
             delivered_rates scenario_web (request_url ''USD'' date) = Some rates
               \<longrightarrow> ''USD'' \<notin> fst ` set rates"
    by (auto simp: scenario_delivered)
  have "{''EUR'', ''USD'', ''JPY'', ''GBP'', ''TRY'', ''CAD'', ''INR'', ''CNY''} - {''USD''}
          = {''EUR'', ''JPY'', ''GBP'', ''TRY'', ''CAD'', ''INR'', ''CNY''}"
    by auto
  with base_never_requested [OF today_dates_3 h] today_dates_3 show ?thesis
    by simp
qed

text \<open>
  Claim C4 as stated fails: asked for the base \<^verbatim>\<open>USD\<close>, a server whose rates mapping holds
  \<^verbatim>\<open>USD\<close> gets that row into the result.
\<close>

theorem base_returned_counterexample:
  "fst (fetch_historical_data (\<lambda>i. 739924) dollar_web ''USD'' 1) =
     Inr [\<lparr>Currency = ''USD'', Rate = JNum 1, Date = ''2026-11-04''\<rparr>]"
proof -
  have "day_rates dollar_web (request_url ''USD'' ''2026-11-04'') = Inr [(''USD'', JNum 1)]"
    by (simp add: day_rates_def requests_returns dollar_web_def safe_json_load_def
        get_rates_def items_def)
  then show ?thesis
    by (simp add: fetch_historical_data_eq [OF today_dates_1] day_rows_def)
qed

subsection \<open>The pause\<close>

lemma pauses_of_events:
  "filter is_pause (concat (map (day_events web base) dates)) =
     replicate (length (filter (\<lambda>date. day_completes web (request_url base date)) dates))
       (Slept 100)"
  by (induction dates) (simp_all add: day_events_def is_pause_def)

text \<open>
  Claim C5, as the code has it. Each date gives a request followed by one of two things: a
  pause of 100 milliseconds when the \<^verbatim>\<open>try\<close> block of that date runs to its end, or a
  warning when the block raises (the request fails, or the payload is not a mapping). So
  the run pauses once per completed date, and not after a failed one.
\<close>

theorem pause_after_completed_days:
  assumes "generate_date_list clock days = Inr dates"
  shows "snd (fetch_historical_data clock web base days) =
           concat (map (\<lambda>date. [Requested (request_url base date),
                                 if day_completes web (request_url base date)
                                 then Slept 100 else Warned date]) dates)
       \<and> filter is_pause (snd (fetch_historical_data clock web base days)) =
           replicate (length (filter (\<lambda>date. day_completes web (request_url base date)) dates))
             (Slept 100)"
  using pauses_of_events [of web base dates]
  by (simp add: fetch_historical_data_eq [OF assms] day_events_def [abs_def])

lemma completes_if_delivered:
  "delivered_rates web url = Some rates \<Longrightarrow> day_completes web url"
  using day_rates_cases [of web url] by (auto simp: day_completes_def)

lemma fails_if_request_fails:
  "fst (requests_get_with_retry web url 3) = Inl e \<Longrightarrow> \<not> day_completes web url"
  by (simp add: day_completes_def day_rates_def)

lemma scenario_completes:
  "day_completes scenario_web (request_url ''USD'' ''2026-11-02'')"
  "day_completes scenario_web (request_url ''USD'' ''2026-11-03'')"
  "\<not> day_completes scenario_web (request_url ''USD'' ''2026-11-04'')"
proof -
  show "day_completes scenario_web (request_url ''USD'' ''2026-11-02'')"
    by (rule completes_if_delivered) (rule scenario_delivered(1))
  show "day_completes scenario_web (request_url ''USD'' ''2026-11-03'')"
    by (rule completes_if_delivered) (rule scenario_delivered(2))
  have "fst (requests_get_with_retry scenario_web (request_url ''USD'' ''2026-11-04'') 3)
          = Inl RetryError"
    by (rule requests_exhausted) (simp add: scenario_web_def request_url_def)
  then show "\<not> day_completes scenario_web (request_url ''USD'' ''2026-11-04'')"
    by (rule fails_if_request_fails)
qed

theorem pause_after_completed_days_witness:
  "generate_date_list (\<lambda>i. 739924) 3 = Inr [''2026-11-02'', ''2026-11-03'', ''2026-11-04'']
   \<and> snd (fetch_historical_data (\<lambda>i. 739924) scenario_web ''USD'' 3) =
       [Requested (request_url ''USD'' ''2026-11-02''), Slept 100,
        Requested (request_url ''USD'' ''2026-11-03''), Slept 100,
        Requested (request_url ''USD'' ''2026-11-04''), Warned ''2026-11-04'']
   \<and> filter is_pause (snd (fetch_historical_data (\<lambda>i. 739924) scenario_web ''USD'' 3)) =
       [Slept 100, Slept 100]"
  using pause_after_completed_days [OF today_dates_3, of scenario_web "''USD''"]
  by (simp add: today_dates_3 scenario_completes is_pause_def)

text \<open>
  Claim C5 as stated fails: when the request of the only day fails, the run warns and ends
  without any pause.
\<close>

theorem no_pause_after_failure_counterexample:
  "snd (fetch_historical_data (\<lambda>i. 739924) down_web ''USD'' 1) =
     [Requested (request_url ''USD'' ''2026-11-04''), Warned ''2026-11-04'']"
proof -
  have "fst (requests_get_with_retry down_web (request_url ''USD'' ''2026-11-04'') 3)
          = Inl RetryError"
    by (rule requests_exhausted) (simp add: down_web_def)
  then have "\<not> day_completes down_web (request_url ''USD'' ''2026-11-04'')"
    by (rule fails_if_request_fails)
  then show ?thesis
    by (simp add: fetch_historical_data_eq [OF today_dates_1] day_events_def)
qed

section \<open>Properties of the date list\<close>

subsection \<open>The shape of a formatted date\<close>

lemma is_digit_digit_char: "k < 10 \<Longrightarrow> is_digit (digit_char k)"
proof -
  assume "k < 10"
  then have "k = 0 \<or> k = 1 \<or> k = 2 \<or> k = 3 \<or> k = 4 \<or> k = 5 \<or> k = 6 \<or> k = 7 \<or> k = 8 \<or> k = 9"
    by arith
  then show ?thesis
    by (elim disjE) (simp_all add: digit_char_def is_digit_def)
qed

lemma decimal_digits:
  "n < 10 ^ k \<Longrightarrow> 0 < k \<Longrightarrow> length (decimal n) \<le> k \<and> list_all is_digit (decimal n)"
proof (induction k arbitrary: n)
  case 0
  then show ?case by simp
next
  case (Suc k)
  show ?case
  proof (cases "n < 10")
    case True
    then show ?thesis by (simp add: decimal_small is_digit_digit_char)
  next
    case False
    with Suc.prems have k: "0 < k" by (cases k) simp_all
    from Suc.prems have "n div 10 < 10 ^ k"
      by (simp add: less_mult_imp_div_less mult.commute)
    from Suc.IH [OF this k] False show ?thesis
      by (simp add: decimal_big is_digit_digit_char)
  qed
qed

lemma zpad_digits:
  assumes "n < 10 ^ w" and "0 < w"
  shows "length (zpad w n) = w \<and> list_all is_digit (zpad w n)"
proof -
  from decimal_digits [OF assms] have "length (decimal n) \<le> w" "list_all is_digit (decimal n)"
    by simp_all
  moreover have "is_digit (CHR ''0'')" by (simp add: is_digit_def)
  ultimately show ?thesis
    by (auto simp: zpad_def list_all_iff)
qed

lemma length_2_digits:
  "length xs = 2 \<Longrightarrow> list_all is_digit xs \<Longrightarrow> \<exists>a b. xs = [a, b] \<and> is_digit a \<and> is_digit b"
  by (cases xs; cases "tl xs") auto

lemma length_4_digits:
  "length xs = 4 \<Longrightarrow> list_all is_digit xs \<Longrightarrow>
     \<exists>a b c d. xs = [a, b, c, d] \<and> is_digit a \<and> is_digit b \<and> is_digit c \<and> is_digit d"
  by (auto simp: length_Suc_conv eval_nat_numeral)

lemma iso_date_format_parts:
  assumes "y < 10000" and "m < 100" and "d < 100"
  shows "iso_date_format (zpad 4 y @ ''-'' @ zpad 2 m @ ''-'' @ zpad 2 d)"
proof -
  from assms have "y < 10 ^ 4" "m < 10 ^ 2" "d < 10 ^ 2" by simp_all
  then have zy: "length (zpad 4 y) = 4 \<and> list_all is_digit (zpad 4 y)"
    and zm: "length (zpad 2 m) = 2 \<and> list_all is_digit (zpad 2 m)"
    and zd: "length (zpad 2 d) = 2 \<and> list_all is_digit (zpad 2 d)"
    by (simp_all add: zpad_digits)
  from zy length_4_digits obtain a b c e where
    y: "zpad 4 y = [a, b, c, e]" "is_digit a" "is_digit b" "is_digit c" "is_digit e" by blast
  from zm length_2_digits obtain f g where m: "zpad 2 m = [f, g]" "is_digit f" "is_digit g"
    by blast
  from zd length_2_digits obtain h i where d: "zpad 2 d = [h, i]" "is_digit h" "is_digit i"
    by blast
  show ?thesis
    by (simp add: iso_date_format_def y m d)
qed

subsection \<open>The range of year, month and day\<close>

lemma year_norm:
  fixes n0 n400 r400 n100 r100 n4 r4 n1 n :: nat
  assumes "n0 \<le> 3652058" "n0 = 146097 * n400 + r400" "r400 < 146097"
    "r400 = 36524 * n100 + r100" "r100 < 36524" "r100 = 1461 * n4 + r4" "r4 < 1461"
    "r4 = 365 * n1 + n" "n < 365" "n1 \<noteq> 4" "n100 \<noteq> 4"
  shows "n400 * 400 + 1 + n100 * 100 + n4 * 4 + n1 \<le> 9999"
proof -
  from assms have "n400 \<le> 24" by linarith
  moreover from assms have "n100 \<le> 3" by linarith
  moreover from assms have "n4 \<le> 24" by linarith
  moreover from assms have "n1 \<le> 3" by linarith
  ultimately show ?thesis using assms by linarith
qed

lemma year_last_day:
  fixes n0 n400 r400 n100 r100 n4 r4 n1 n :: nat
  assumes "n0 \<le> 3652058" "n0 = 146097 * n400 + r400" "r400 < 146097"
    "r400 = 36524 * n100 + r100" "r100 < 36524" "r100 = 1461 * n4 + r4" "r4 < 1461"
    "r4 = 365 * n1 + n" "n < 365" "n1 = 4 \<or> n100 = 4"
  shows "1 \<le> n400 * 400 + 1 + n100 * 100 + n4 * 4 + n1 - 1
       \<and> n400 * 400 + 1 + n100 * 100 + n4 * 4 + n1 - 1 \<le> 9999"
proof -
  from assms have "n400 \<le> 24" by linarith
  moreover from assms have "n100 \<le> 4" by linarith
  moreover from assms have "n4 \<le> 24" by linarith
  moreover from assms have "n1 \<le> 4" by linarith
  ultimately show ?thesis using assms by linarith
qed

lemma month_cases:
  fixes n month :: nat
  assumes "32 * month \<le> n + 50" "n + 50 < 32 * month + 32" "n < 365"
  shows "month = 1 \<or> month = 2 \<or> month = 3 \<or> month = 4 \<or> month = 5 \<or> month = 6
      \<or> month = 7 \<or> month = 8 \<or> month = 9 \<or> month = 10 \<or> month = 11 \<or> month = 12"
proof -
  from assms have "1 \<le> month" "month \<le> 12" by linarith+
  then show ?thesis by (auto simp: le_Suc_eq eval_nat_numeral)
qed

lemma month_div:
  fixes n :: nat
  shows "32 * ((n + 50) div 32) \<le> n + 50" "n + 50 < 32 * ((n + 50) div 32) + 32"
  by linarith+

lemma day_bounds:
  fixes n month la lf :: nat
  assumes m1: "32 * month \<le> n + 50" and m2: "n + 50 < 32 * month + 32" and b1: "n < 365"
    and la: "la \<le> 1" and lf: "lf \<le> 1" and la2: "month \<le> 2 \<longrightarrow> la = 0"
    and lf2: "month - 1 \<noteq> 2 \<longrightarrow> lf = 0"
    and mc: "month = 1 \<or> month = 2 \<or> month = 3 \<or> month = 4 \<or> month = 5 \<or> month = 6
      \<or> month = 7 \<or> month = 8 \<or> month = 9 \<or> month = 10 \<or> month = 11 \<or> month = 12"
  shows "(n < DAYS_BEFORE_MONTH ! month + la \<longrightarrow> 2 \<le> month
        \<and> n + (DAYS_IN_MONTH ! (month - 1) + lf) - (DAYS_BEFORE_MONTH ! month + la) + 1 \<le> 31)
      \<and> (\<not> n < DAYS_BEFORE_MONTH ! month + la \<longrightarrow> n - (DAYS_BEFORE_MONTH ! month + la) + 1 \<le> 31)"
  using mc
proof (elim disjE)
  assume "month = 1"
  with assms show ?thesis by (simp add: DAYS_BEFORE_MONTH_def DAYS_IN_MONTH_def; linarith)
next
  assume "month = 2"
  with assms show ?thesis by (simp add: DAYS_BEFORE_MONTH_def DAYS_IN_MONTH_def; linarith)
next
  assume "month = 3"
  with m1 m2 b1 la lf show ?thesis by (simp add: DAYS_BEFORE_MONTH_def DAYS_IN_MONTH_def; linarith)
next
  assume "month = 4"
  with m1 m2 b1 la lf lf2 show ?thesis by (simp add: DAYS_BEFORE_MONTH_def DAYS_IN_MONTH_def; linarith)
next
  assume "month = 5"
  with m1 m2 b1 la lf lf2 show ?thesis by (simp add: DAYS_BEFORE_MONTH_def DAYS_IN_MONTH_def; linarith)
next
  assume "month = 6"
  with m1 m2 b1 la lf lf2 show ?thesis by (simp add: DAYS_BEFORE_MONTH_def DAYS_IN_MONTH_def; linarith)
next
  assume "month = 7"
  with m1 m2 b1 la lf lf2 show ?thesis by (simp add: DAYS_BEFORE_MONTH_def DAYS_IN_MONTH_def; linarith)
next
  assume "month = 8"
  with m1 m2 b1 la lf lf2 show ?thesis by (simp add: DAYS_BEFORE_MONTH_def DAYS_IN_MONTH_def; linarith)
next
  assume "month = 9"
  with m1 m2 b1 la lf lf2 show ?thesis by (simp add: DAYS_BEFORE_MONTH_def DAYS_IN_MONTH_def; linarith)
next
  assume "month = 10"
  with m1 m2 b1 la lf lf2 show ?thesis by (simp add: DAYS_BEFORE_MONTH_def DAYS_IN_MONTH_def; linarith)
next
  assume "month = 11"
  with m1 m2 b1 la lf lf2 show ?thesis by (simp add: DAYS_BEFORE_MONTH_def DAYS_IN_MONTH_def; linarith)
next
  assume "month = 12"
  with m1 m2 b1 la lf lf2 show ?thesis by (simp add: DAYS_BEFORE_MONTH_def DAYS_IN_MONTH_def; linarith)
qed

lemma ord2ymd_bounds:
  assumes "1 \<le> ordinal" and "ordinal \<le> MAXORDINAL"
  shows "\<exists>y m d. ord2ymd ordinal = (y, m, d) \<and> 1 \<le> y \<and> y \<le> 9999 \<and> 1 \<le> m \<and> m \<le> 12
           \<and> 1 \<le> d \<and> d \<le> 31"
proof -
  define n0 where "n0 = ordinal - 1"
  define n400 where "n400 = n0 div 146097"
  define r400 where "r400 = n0 mod 146097"
  define n100 where "n100 = r400 div 36524"
  define r100 where "r100 = r400 mod 36524"
  define n4 where "n4 = r100 div 1461"
  define r4 where "r4 = r100 mod 1461"
  define n1 where "n1 = r4 div 365"
  define n where "n = r4 mod 365"
  define year where "year = n400 * 400 + 1 + n100 * 100 + n4 * 4 + n1"
  define leapyear where "leapyear \<longleftrightarrow> n1 = 3 \<and> (n4 \<noteq> 24 \<or> n100 = 3)"
  define month where "month = (n + 50) div 32"
  define la where "la = (if 2 < month \<and> leapyear then 1 else 0 :: nat)"
  define lf where "lf = (if month - 1 = 2 \<and> leapyear then 1 else 0 :: nat)"
  have unfolded: "ord2ymd ordinal =
      (if n1 = 4 \<or> n100 = 4 then (year - 1, 12, 31)
       else if n < DAYS_BEFORE_MONTH ! month + la
         then (year, month - 1,
               n + (DAYS_IN_MONTH ! (month - 1) + lf) - (DAYS_BEFORE_MONTH ! month + la) + 1)
         else (year, month, n - (DAYS_BEFORE_MONTH ! month + la) + 1))"
    by (simp only: ord2ymd_def Let_def n0_def n400_def r400_def n100_def r100_def n4_def r4_def
        n1_def n_def year_def leapyear_def month_def la_def lf_def)
  have n0: "n0 \<le> 3652058"
    using assms by (simp add: n0_def MAXORDINAL_def)
  have e400: "n0 = 146097 * n400 + r400" and b400: "r400 < 146097"
    by (simp_all add: n400_def r400_def)
  have e100: "r400 = 36524 * n100 + r100" and b100: "r100 < 36524"
    by (simp_all add: n100_def r100_def)
  have e4: "r100 = 1461 * n4 + r4" and b4: "r4 < 1461"
    by (simp_all add: n4_def r4_def)
  have e1: "r4 = 365 * n1 + n" and b1: "n < 365"
    by (simp_all add: n1_def n_def)
  have m1: "32 * month \<le> n + 50" and m2: "n + 50 < 32 * month + 32"
    unfolding month_def by (rule month_div)+
  note mc = month_cases [OF m1 m2 b1]
  have la: "la \<le> 1" and lf: "lf \<le> 1" and la2: "month \<le> 2 \<longrightarrow> la = 0"
    and lf2: "month - 1 \<noteq> 2 \<longrightarrow> lf = 0"
    by (simp_all add: la_def lf_def)
  note day = day_bounds [OF m1 m2 b1 la lf la2 lf2 mc]
  show ?thesis
  proof (cases "n1 = 4 \<or> n100 = 4")
    case True
    from year_last_day [OF n0 e400 b400 e100 b100 e4 b4 e1 b1 True]
    have "1 \<le> year - 1 \<and> year - 1 \<le> 9999" by (simp only: year_def)
    with True unfolded show ?thesis by simp
  next
    case False
    then have "n1 \<noteq> 4" and "n100 \<noteq> 4" by simp_all
    from year_norm [OF n0 e400 b400 e100 b100 e4 b4 e1 b1 this]
    have y: "1 \<le> year \<and> year \<le> 9999" by (simp add: year_def)
    from mc have mr: "1 \<le> month \<and> month \<le> 12" by auto
    show ?thesis
    proof (cases "n < DAYS_BEFORE_MONTH ! month + la")
      case True
      with day have "2 \<le> month" and
        "n + (DAYS_IN_MONTH ! (month - 1) + lf) - (DAYS_BEFORE_MONTH ! month + la) + 1 \<le> 31"
        by simp_all
      with True False unfolded y mr show ?thesis by auto
    next
      case nb: False
      with day have "n - (DAYS_BEFORE_MONTH ! month + la) + 1 \<le> 31" by simp
      with nb False unfolded y mr show ?thesis by simp
    qed
  qed
qed

lemma strftime_format:
  assumes "1 \<le> ordinal" and "ordinal \<le> MAXORDINAL"
  shows "iso_date_format (strftime ordinal)"
proof -
  from ord2ymd_bounds [OF assms] obtain y m d where
    "ord2ymd ordinal = (y, m, d)" and "y \<le> 9999" and "m \<le> 12" and "d \<le> 31"
    by blast
  with iso_date_format_parts [of y m d] show ?thesis
    by (simp add: strftime_def)
qed

subsection \<open>The list\<close>

lemma comprehension_all_return:
  "(\<forall>x \<in> set xs. f x = Inr (g x)) \<Longrightarrow> comprehension f xs = Inr (map g xs)"
  by (induction xs) simp_all

lemma rev_window:
  assumes "k \<le> today"
  shows "rev (map (\<lambda>i. strftime (today - i)) [0..<k]) = map strftime [Suc today - k..<Suc today]"
proof (rule nth_equalityI)
  show "length (rev (map (\<lambda>i. strftime (today - i)) [0..<k]))
          = length (map strftime [Suc today - k..<Suc today])"
    using assms by (simp del: upt_Suc; arith)
next
  fix j
  assume "j < length (rev (map (\<lambda>i. strftime (today - i)) [0..<k]))"
  then have j: "j < k" by simp
  then have "rev (map (\<lambda>i. strftime (today - i)) [0..<k]) ! j = strftime (today - (k - Suc j))"
    by (simp add: rev_nth)
  moreover from j assms have "Suc today - k + j < Suc today" by arith
  then have "map strftime [Suc today - k..<Suc today] ! j = strftime (Suc today - k + j)"
    by (simp del: upt_Suc)
  moreover from j assms have "today - (k - Suc j) = Suc today - k + j" by arith
  ultimately show "rev (map (\<lambda>i. strftime (today - i)) [0..<k]) ! j
      = map strftime [Suc today - k..<Suc today] ! j"
    by simp
qed

text \<open>
  Claim C7. Let \<open>days \<ge> 1\<close>, and let every reading of the clock made by the call fall on the
  same date \<open>today\<close>, with the whole window inside the years 1000 to 9999. Then the list holds
  exactly \<open>days\<close> strings: the dates of \<open>days\<close> consecutive days, the oldest first and today
  last, each of the shape \<^verbatim>\<open>YYYY-MM-DD\<close>. (Day 364878 is 1000-01-01.)
\<close>

theorem generate_date_list_window:
  assumes "1 \<le> days"
    and "\<forall>i < nat days. clock i = today"
    and "364877 + nat days \<le> today"
    and "today \<le> MAXORDINAL"
  shows "\<exists>dates. generate_date_list clock days = Inr dates
           \<and> length dates = nat days
           \<and> dates = map strftime [Suc today - nat days..<Suc today]
           \<and> last dates = strftime today
           \<and> list_all iso_date_format dates"
proof -
  define k where "k = nat days"
  from assms(1) have k: "0 < k" by (simp add: k_def)
  from assms(3) have kt: "k \<le> today" by (simp add: k_def)
  have "\<forall>i \<in> set [0..<k].
          (case minus_days (clock i) i of Inl e \<Rightarrow> Inl e | Inr d \<Rightarrow> Inr (strftime d))
            = Inr (strftime (today - i))"
    using assms(2,4) kt by (auto simp: k_def minus_days_def)
  from comprehension_all_return [OF this]
  have gen: "generate_date_list clock days
      = Inr (rev (map (\<lambda>i. strftime (today - i)) [0..<k]))"
    by (simp add: generate_date_list_def k_def)
  define dates where "dates = map strftime [Suc today - k..<Suc today]"
  from gen rev_window [OF kt] have 1: "generate_date_list clock days = Inr dates"
    by (simp only: dates_def)
  from kt have 2: "length dates = k"
    by (simp add: dates_def del: upt_Suc; arith)
  from k kt have "Suc today - k \<le> today" by arith
  then have "[Suc today - k..<Suc today] = [Suc today - k..<today] @ [today]"
    by (rule upt_Suc_append)
  then have 3: "last dates = strftime today" by (simp add: dates_def)
  have "iso_date_format (strftime d)" if "d \<in> set [Suc today - k..<Suc today]" for d
  proof -
    from that have "Suc today - k \<le> d" and "d < Suc today" by (simp_all del: upt_Suc)
    with kt assms(4) have "1 \<le> d" and "d \<le> MAXORDINAL" by arith+
    then show ?thesis by (rule strftime_format)
  qed
  then have 4: "list_all iso_date_format dates"
    by (simp add: dates_def list_all_iff del: upt_Suc)
  from 1 2 3 4 show ?thesis
    unfolding dates_def k_def by blast
qed

theorem generate_date_list_window_witness:
  "(1::int) \<le> 3 \<and> 364877 + nat 3 \<le> (739924::nat) \<and> (739924::nat) \<le> MAXORDINAL
   \<and> generate_date_list (\<lambda>i. 739924) 3 = Inr [''2026-11-02'', ''2026-11-03'', ''2026-11-04'']
   \<and> length [''2026-11-02'', ''2026-11-03'', ''2026-11-04''] = nat 3
   \<and> [''2026-11-02'', ''2026-11-03'', ''2026-11-04''] = map strftime [739922..<Suc 739924]
   \<and> last [''2026-11-02'', ''2026-11-03'', ''2026-11-04''] = strftime 739924
   \<and> list_all iso_date_format [''2026-11-02'', ''2026-11-03'', ''2026-11-04'']"
proof -
  have h: "\<forall>i < nat 3. (\<lambda>i. 739924) i = (739924::nat)" "364877 + nat 3 \<le> (739924::nat)"
    "(739924::nat) \<le> MAXORDINAL"
    by (simp_all add: MAXORDINAL_def)
  have s: "strftime 739922 = ''2026-11-02''" "strftime 739923 = ''2026-11-03''"
    "strftime 739924 = ''2026-11-04''"
    by (simp_all add: date_simps)
  have "(1::int) \<le> 3" by simp
  from generate_date_list_window [OF this h] h show ?thesis
    by (simp add: today_dates_3 s)
qed

end
